theory Spec2Isabelle
  imports Complex_Main
begin

section \<open>Values on the wire\<close>

text \<open>
  The request body, the template variables and the model's reply are Python objects
  obtained from JSON text (\<^verbatim>\<open>json.loads\<close>, the output parser of the chain). A
  \<open>JObj\<close> holds the items of a Python dict in insertion order; a number is an
  \<open>int\<close> or a \<open>float\<close>, which no branch of the program tells apart. The parsers
  accept \<^verbatim>\<open>Infinity\<close>, \<^verbatim>\<open>-Infinity\<close> and \<^verbatim>\<open>NaN\<close>, and read a literal
  beyond the range of a float, such as \<^verbatim>\<open>1e309\<close>, as infinite. A \<open>str\<close> is a list
  of characters.
\<close>

datatype number = Finite rat | Infinity | MinusInfinity | NaN

datatype json =
    JNull
  | JBool bool
  | JNum number
  | JStr string
  | JArr "json list"
  | JObj "(string \<times> json) list"

datatype py_exception = TypeError | AttributeError

text \<open>
  Python's truth value of an object, as tested by \<^verbatim>\<open>if x\<close>. Among the numbers only
  zero is false; an infinite float and \<^verbatim>\<open>nan\<close> are true.
\<close>

fun truthy :: "json \<Rightarrow> bool" where
  "truthy JNull = False"
| "truthy (JBool b) = b"
| "truthy (JNum n) = (n \<noteq> Finite 0)"
| "truthy (JStr s) = (s \<noteq> [])"
| "truthy (JArr xs) = (xs \<noteq> [])"
| "truthy (JObj kvs) = (kvs \<noteq> [])"

text \<open>
  \<^verbatim>\<open>for x in v\<close>: a list yields its elements, a str its characters (each a str of
  length one), a dict its keys; \<^verbatim>\<open>None\<close>, a bool and a number are not iterable and
  raise \<^verbatim>\<open>TypeError\<close>.
\<close>

fun py_iter :: "json \<Rightarrow> py_exception + json list" where
  "py_iter (JArr xs) = Inr xs"
| "py_iter (JStr s) = Inr (map (\<lambda>c. JStr [c]) s)"
| "py_iter (JObj kvs) = Inr (map (\<lambda>kv. JStr (fst kv)) kvs)"
| "py_iter JNull = Inl TypeError"
| "py_iter (JBool b) = Inl TypeError"
| "py_iter (JNum n) = Inl TypeError"

text \<open>
  \<^verbatim>\<open>d.get(key, default)\<close>: only a dict has the method; on any other object the
  attribute lookup raises \<^verbatim>\<open>AttributeError\<close>.
\<close>

fun py_get :: "json \<Rightarrow> string \<Rightarrow> json \<Rightarrow> py_exception + json" where
  "py_get (JObj kvs) key dflt = Inr (case map_of kvs key of None \<Rightarrow> dflt | Some v \<Rightarrow> v)"
| "py_get _ key dflt = Inl AttributeError"

text \<open>An \<^verbatim>\<open>Optional[str]\<close> attribute as a value: \<^verbatim>\<open>None\<close> or the str.\<close>

fun of_optional :: "string option \<Rightarrow> json" where
  "of_optional None = JNull"
| "of_optional (Some s) = JStr s"

section \<open>Input models\<close>

record SelectItem =
  table :: string
  target_type :: string
  target_name :: string
  used_fields :: "string list"
  suggested_fields :: "string list"
  suggested_statement :: "string option"

record NoteContext =
  pgm_name :: "string option"
  inc_name :: "string option"
  type :: "string option"
  name :: "string option"
  cm_obj_usage :: "SelectItem list"

text \<open>
  The field validator of \<^verbatim>\<open>SelectItem\<close>, \<^verbatim>\<open>[x for x in v if x]\<close>. It runs in mode
  \<^verbatim>\<open>before\<close>: on the raw value of the field, ahead of the check against
  \<^verbatim>\<open>List[str]\<close>.
\<close>

definition no_none :: "json \<Rightarrow> py_exception + json list" where
  "no_none v = (case py_iter v of Inl e \<Rightarrow> Inl e | Inr xs \<Rightarrow> Inr (filter truthy xs))"

section \<open>Schema validation\<close>

text \<open>
  What validating a raw value against a model gives: the validated value, a
  \<^verbatim>\<open>ValidationError\<close> (the framework answers 422), or an exception of another
  class raised inside a field validator. The library translates \<^verbatim>\<open>ValueError\<close> and
  \<^verbatim>\<open>AssertionError\<close> of a validator only; a \<^verbatim>\<open>TypeError\<close> leaves the
  validation as it is.
\<close>

datatype 'a validation = Valid 'a | ValidationError | Escapes py_exception

text \<open>
  Two parts of one value, validated in order. An error of the schema is collected and the
  next part is still validated; an escaping exception ends the validation at once.
\<close>

fun both :: "'a validation \<Rightarrow> 'b validation \<Rightarrow> ('a \<times> 'b) validation" where
  "both (Escapes e) _ = Escapes e"
| "both _ (Escapes e) = Escapes e"
| "both (Valid a) (Valid b) = Valid (a, b)"
| "both _ _ = ValidationError"

fun validate_str :: "json \<Rightarrow> string validation" where
  "validate_str (JStr s) = Valid s"
| "validate_str _ = ValidationError"

fun validate_optional_str :: "json \<Rightarrow> string option validation" where
  "validate_optional_str JNull = Valid None"
| "validate_optional_str (JStr s) = Valid (Some s)"
| "validate_optional_str _ = ValidationError"

fun validate_items :: "(json \<Rightarrow> 'a validation) \<Rightarrow> json list \<Rightarrow> 'a list validation" where
  "validate_items f [] = Valid []"
| "validate_items f (x # xs) =
     map_validation (\<lambda>(y, ys). y # ys) (both (f x) (validate_items f xs))"

fun validate_list :: "(json \<Rightarrow> 'a validation) \<Rightarrow> json \<Rightarrow> 'a list validation" where
  "validate_list f (JArr xs) = validate_items f xs"
| "validate_list f _ = ValidationError"

text \<open>A field without a default is required; a field with one takes it when the key is absent.\<close>

definition required :: "(string \<times> json) list \<Rightarrow> string \<Rightarrow> (json \<Rightarrow> 'a validation) \<Rightarrow> 'a validation" where
  "required kvs key f = (case map_of kvs key of None \<Rightarrow> ValidationError | Some v \<Rightarrow> f v)"

definition with_default :: "(string \<times> json) list \<Rightarrow> string \<Rightarrow> 'a \<Rightarrow> (json \<Rightarrow> 'a validation) \<Rightarrow> 'a validation" where
  "with_default kvs key dflt f = (case map_of kvs key of None \<Rightarrow> Valid dflt | Some v \<Rightarrow> f v)"

text \<open>
  \<^verbatim>\<open>used_fields\<close> and \<^verbatim>\<open>suggested_fields\<close>: \<open>no_none\<close> on the raw value, then the
  list it returns against \<^verbatim>\<open>List[str]\<close>.
\<close>

definition validate_fields :: "json \<Rightarrow> string list validation" where
  "validate_fields v =
     (case no_none v of Inl e \<Rightarrow> Escapes e | Inr xs \<Rightarrow> validate_items validate_str xs)"

fun validate_SelectItem :: "json \<Rightarrow> SelectItem validation" where
  "validate_SelectItem (JObj kvs) =
     map_validation
       (\<lambda>(t, tt, tn, uf, sf, ss).
          \<lparr>table = t, target_type = tt, target_name = tn, used_fields = uf,
           suggested_fields = sf, suggested_statement = ss\<rparr>)
       (both (required kvs ''table'' validate_str)
       (both (required kvs ''target_type'' validate_str)
       (both (required kvs ''target_name'' validate_str)
       (both (required kvs ''used_fields'' validate_fields)
       (both (required kvs ''suggested_fields'' validate_fields)
             (with_default kvs ''suggested_statement'' None validate_optional_str))))))"
| "validate_SelectItem _ = ValidationError"

fun validate_NoteContext :: "json \<Rightarrow> NoteContext validation" where
  "validate_NoteContext (JObj kvs) =
     map_validation
       (\<lambda>(p, i, t, n, u).
          \<lparr>pgm_name = p, inc_name = i, type = t, name = n, cm_obj_usage = u\<rparr>)
       (both (with_default kvs ''pgm_name'' None validate_optional_str)
       (both (with_default kvs ''inc_name'' None validate_optional_str)
       (both (with_default kvs ''type'' None validate_optional_str)
       (both (with_default kvs ''name'' None validate_optional_str)
             (with_default kvs ''cm_obj_usage'' [] (validate_list validate_SelectItem))))))"
| "validate_NoteContext _ = ValidationError"

text \<open>The body of the request against \<^verbatim>\<open>List[NoteContext]\<close>.\<close>

definition validate_body :: "json \<Rightarrow> NoteContext list validation" where
  "validate_body body = validate_list validate_NoteContext body"

section \<open>Summarizer\<close>

text \<open>\<^verbatim>\<open>item.model_dump()\<close>: the fields of the item as a dict, in declaration order.\<close>

definition model_dump :: "SelectItem \<Rightarrow> json" where
  "model_dump item = JObj
     [(''table'', JStr (table item)),
      (''target_type'', JStr (target_type item)),
      (''target_name'', JStr (target_name item)),
      (''used_fields'', JArr (map JStr (used_fields item))),
      (''suggested_fields'', JArr (map JStr (suggested_fields item))),
      (''suggested_statement'', of_optional (suggested_statement item))]"

definition summarize_context :: "NoteContext \<Rightarrow> json" where
  "summarize_context ctx = JObj
     [(''unit_program'', of_optional (pgm_name ctx)),
      (''unit_include'', of_optional (inc_name ctx)),
      (''unit_type'', of_optional (type ctx)),
      (''unit_name'', of_optional (name ctx)),
      (''cm_obj_usage'', JArr (map model_dump (cm_obj_usage ctx)))]"

section \<open>Model client\<close>

text \<open>
  \<^verbatim>\<open>chain.invoke\<close> sends the rendered prompt to the external service and parses the
  reply as JSON: it returns the parsed value, whatever its shape, or raises an
  \<^verbatim>\<open>Exception\<close>, kept here as its message \<^verbatim>\<open>str(e)\<close>. The service is not
  required to be deterministic, so the chain is a function of a state of its own.
  \<^verbatim>\<open>json.dumps(_, ensure_ascii=False, indent=2)\<close> is a parameter as well.
\<close>

datatype reply = Returns json | Raises string

type_synonym 's chain = "json \<Rightarrow> 's \<Rightarrow> reply \<times> 's"

text \<open>The world of a request: the state of the service and the calls made to it so far.\<close>

record 's world =
  model_state :: 's
  calls :: "json list"

definition invoke :: "'s chain \<Rightarrow> json \<Rightarrow> 's world \<Rightarrow> reply \<times> 's world" where
  "invoke chain inp w =
     (case chain inp (model_state w) of
        (r, s') \<Rightarrow> (r, \<lparr>model_state = s', calls = calls w @ [inp]\<rparr>))"

definition llm_assess :: "(json \<Rightarrow> string) \<Rightarrow> 's chain \<Rightarrow> NoteContext \<Rightarrow> 's world \<Rightarrow> reply \<times> 's world" where
  "llm_assess dumps chain ctx w =
     (let ctx_json = dumps (summarize_context ctx)
      in invoke chain
           (JObj [(''context_json'', JStr ctx_json),
                  (''pgm_name'', of_optional (pgm_name ctx)),
                  (''inc_name'', of_optional (inc_name ctx)),
                  (''type'', of_optional (type ctx)),
                  (''name'', of_optional (name ctx))])
           w)"

section \<open>Request handler\<close>

text \<open>
  How a request ends: the handler returns a value, it raises an
  \<^verbatim>\<open>HTTPException\<close>, the framework rejects the body (422), or an exception that
  nothing translates leaves the handler (500).
\<close>

datatype outcome =
    Returned json
  | HTTPException nat string
  | RequestValidationError
  | Unhandled py_exception

text \<open>
  The framework renders a returned value with
  \<^verbatim>\<open>json.dumps(content, allow_nan=False)\<close>, which raises \<^verbatim>\<open>ValueError\<close> at a
  float that is infinite or \<^verbatim>\<open>nan\<close>, anywhere in the value.
\<close>

fun is_finite :: "number \<Rightarrow> bool" where
  "is_finite (Finite q) = True"
| "is_finite _ = False"

fun renders :: "json \<Rightarrow> bool" where
  "renders (JNum n) = is_finite n"
| "renders (JArr xs) = (\<forall>x \<in> set xs. renders x)"
| "renders (JObj kvs) = (\<forall>kv \<in> set kvs. renders (snd kv))"
| "renders _ = True"

text \<open>
  The status of the response. A returned value that renders is sent with status 200; the
  exception of one that does not render is translated by nothing, as any other that leaves
  the handler.
\<close>

fun status_code :: "outcome \<Rightarrow> nat" where
  "status_code (Returned v) = (if renders v then 200 else 500)"
| "status_code (HTTPException code detail) = code"
| "status_code RequestValidationError = 422"
| "status_code (Unhandled e) = 500"

text \<open>
  The loop of \<^verbatim>\<open>assess_note_context\<close> over the remaining items, with the results
  collected so far. Only the call of \<open>llm_assess\<close> is inside the \<^verbatim>\<open>try\<close>; the two
  \<^verbatim>\<open>llm_result.get\<close> are evaluated after it, in the order of the dict display.
\<close>

fun assess_loop :: "(json \<Rightarrow> string) \<Rightarrow> 's chain \<Rightarrow> NoteContext list \<Rightarrow> json list \<Rightarrow> 's world \<Rightarrow> outcome \<times> 's world" where
  "assess_loop dumps chain [] results w = (Returned (JArr results), w)"
| "assess_loop dumps chain (ctx # ctxs) results w =
     (case llm_assess dumps chain ctx w of
        (Raises e, w') \<Rightarrow> (HTTPException 502 (''LLM call failed: '' @ e), w')
      | (Returns llm_result, w') \<Rightarrow>
          (case py_get llm_result ''assessment'' (JStr '''') of
             Inl err \<Rightarrow> (Unhandled err, w')
           | Inr assessment \<Rightarrow>
               (case py_get llm_result ''llm_prompt'' (JStr '''') of
                  Inl err \<Rightarrow> (Unhandled err, w')
                | Inr llm_prompt \<Rightarrow>
                    assess_loop dumps chain ctxs
                      (results @
                       [JObj [(''pgm_name'', of_optional (pgm_name ctx)),
                              (''inc_name'', of_optional (inc_name ctx)),
                              (''type'', of_optional (type ctx)),
                              (''name'', of_optional (name ctx)),
                              (''code'', JStr ''''),
                              (''assessment'', assessment),
                              (''llm_prompt'', llm_prompt)]])
                      w')))"

definition assess_note_context :: "(json \<Rightarrow> string) \<Rightarrow> 's chain \<Rightarrow> NoteContext list \<Rightarrow> 's world \<Rightarrow> outcome \<times> 's world" where
  "assess_note_context dumps chain ctxs w = assess_loop dumps chain ctxs [] w"

text \<open>
  \<^verbatim>\<open>POST /assess-2217124\<close>: the framework validates the body against
  \<^verbatim>\<open>List[NoteContext]\<close> and calls the handler only with a valid one.
\<close>

definition post_assess :: "(json \<Rightarrow> string) \<Rightarrow> 's chain \<Rightarrow> json \<Rightarrow> 's world \<Rightarrow> outcome \<times> 's world" where
  "post_assess dumps chain body w =
     (case validate_body body of
        Valid ctxs \<Rightarrow> assess_note_context dumps chain ctxs w
      | ValidationError \<Rightarrow> (RequestValidationError, w)
      | Escapes e \<Rightarrow> (Unhandled e, w))"

section \<open>Health endpoint\<close>

text \<open>\<^verbatim>\<open>os.getenv("OPENAI_MODEL", "gpt-4o")\<close>, read once when the module is loaded.\<close>

definition OPENAI_MODEL :: "(string \<rightharpoonup> string) \<Rightarrow> string" where
  "OPENAI_MODEL env = (case env ''OPENAI_MODEL'' of None \<Rightarrow> ''gpt-4o'' | Some m \<Rightarrow> m)"

definition health :: "(string \<rightharpoonup> string) \<Rightarrow> json" where
  "health env = JObj [(''ok'', JBool True), (''model'', JStr (OPENAI_MODEL env))]"

text \<open>\<^verbatim>\<open>GET /health\<close>: the handler takes no argument and calls nothing.\<close>

definition get_health :: "(string \<rightharpoonup> string) \<Rightarrow> 's world \<Rightarrow> outcome \<times> 's world" where
  "get_health env w = (Returned (health env), w)"

section \<open>Notions used in the statements\<close>

text \<open>The mapping that \<open>llm_assess\<close> passes to the chain for an item.\<close>

definition prompt_vars :: "(json \<Rightarrow> string) \<Rightarrow> NoteContext \<Rightarrow> json" where
  "prompt_vars dumps ctx =
     JObj [(''context_json'', JStr (dumps (summarize_context ctx))),
           (''pgm_name'', of_optional (pgm_name ctx)),
           (''inc_name'', of_optional (inc_name ctx)),
           (''type'', of_optional (type ctx)),
           (''name'', of_optional (name ctx))]"

text \<open>The replies of the service to a sequence of inputs, sent in order from a state.\<close>

fun replies :: "'s chain \<Rightarrow> json list \<Rightarrow> 's \<Rightarrow> reply list" where
  "replies chain [] s = []"
| "replies chain (inp # inps) s = (case chain inp s of (r, s') \<Rightarrow> r # replies chain inps s')"

text \<open>A call that succeeds with a JSON object.\<close>

fun is_object :: "reply \<Rightarrow> bool" where
  "is_object (Returns (JObj kvs)) = True"
| "is_object _ = False"

text \<open>The value of a key in a result, \<open>None\<close> when the result is no dict or lacks the key.\<close>

fun field :: "json \<Rightarrow> string \<Rightarrow> json option" where
  "field (JObj kvs) key = map_of kvs key"
| "field _ key = None"

text \<open>The result built for an item from a reply that is an object.\<close>

fun result_for :: "NoteContext \<Rightarrow> reply \<Rightarrow> json" where
  "result_for ctx (Returns (JObj kvs)) =
     JObj [(''pgm_name'', of_optional (pgm_name ctx)),
           (''inc_name'', of_optional (inc_name ctx)),
           (''type'', of_optional (type ctx)),
           (''name'', of_optional (name ctx)),
           (''code'', JStr ''''),
           (''assessment'', case map_of kvs ''assessment'' of None \<Rightarrow> JStr '''' | Some v \<Rightarrow> v),
           (''llm_prompt'', case map_of kvs ''llm_prompt'' of None \<Rightarrow> JStr '''' | Some v \<Rightarrow> v)]"
| "result_for ctx _ = JNull"

text \<open>The replies that the service gives, in order, to the calls for the items of a batch.\<close>

definition batch_replies :: "(json \<Rightarrow> string) \<Rightarrow> 's chain \<Rightarrow> NoteContext list \<Rightarrow> 's world \<Rightarrow> reply list" where
  "batch_replies dumps chain ctxs w = replies chain (map (prompt_vars dumps) ctxs) (model_state w)"

text \<open>How the handler ends at a reply that is no object.\<close>

fun failure :: "reply \<Rightarrow> outcome" where
  "failure (Raises e) = HTTPException 502 (''LLM call failed: '' @ e)"
| "failure (Returns v) = Unhandled AttributeError"

section \<open>Stand-ins for concrete runs\<close>

text \<open>
  A service that answers its n-th call with the n-th reply of a script, a serializer that
  renders only the number of usages, and a unit without usages.
\<close>

definition scripted :: "reply list \<Rightarrow> nat chain" where
  "scripted script inp n = (if n < length script then script ! n else Raises ''no reply'', Suc n)"

fun usage_count :: "json \<Rightarrow> string" where
  "usage_count (JObj kvs) =
     (case map_of kvs ''cm_obj_usage'' of Some (JArr us) \<Rightarrow> replicate (length us) CHR ''u'' | _ \<Rightarrow> [])"
| "usage_count _ = []"

definition unit_named :: "string \<Rightarrow> NoteContext" where
  "unit_named n =
     \<lparr>pgm_name = Some ''Z_CM'', inc_name = Some ''Z_CM_I01'', type = Some ''FORM'',
      name = Some n, cm_obj_usage = []\<rparr>"

definition fresh :: "nat world" where
  "fresh = \<lparr>model_state = 0, calls = []\<rparr>"

text \<open>The request of the specification's example.\<close>

definition example_request :: json where
  "example_request =
     JArr [JObj [(''pgm_name'', JStr ''Z_CM''), (''inc_name'', JStr ''Z_CM_I01''),
                 (''type'', JStr ''FORM''), (''name'', JStr ''CHECK_CREDIT''),
                 (''cm_obj_usage'',
                  JArr [JObj [(''table'', JStr ''S066''), (''target_type'', JStr ''TABLE''),
                              (''target_name'', JStr ''S066''),
                              (''used_fields'', JArr [JStr ''KUNNR'', JStr '''', JNull]),
                              (''suggested_fields'', JArr [JStr ''UKM_ITEM''])]])]]"

text \<open>
  A request whose only usage lacks \<^verbatim>\<open>table\<close> and has \<^verbatim>\<open>null\<close> for
  \<^verbatim>\<open>used_fields\<close>, and one whose only usage has a str for \<^verbatim>\<open>used_fields\<close>.
\<close>

definition request_without_table :: json where
  "request_without_table =
     JArr [JObj [(''cm_obj_usage'',
                  JArr [JObj [(''target_type'', JStr ''TABLE''), (''target_name'', JStr ''S066''),
                              (''used_fields'', JNull), (''suggested_fields'', JArr [])]])]]"

definition request_with_str_fields :: json where
  "request_with_str_fields =
     JArr [JObj [(''cm_obj_usage'',
                  JArr [JObj [(''table'', JStr ''S066''), (''target_type'', JStr ''TABLE''),
                              (''target_name'', JStr ''S066''),
                              (''used_fields'', JStr ''KUNNR''),
                              (''suggested_fields'', JArr [JStr ''UKM_ITEM''])]])]]"

text \<open>What a raw record may hold for an \<^verbatim>\<open>Optional[str]\<close> field: nothing, null or a str.\<close>

fun absent_null_or_str :: "json option \<Rightarrow> bool" where
  "absent_null_or_str None = True"
| "absent_null_or_str (Some JNull) = True"
| "absent_null_or_str (Some (JStr s)) = True"
| "absent_null_or_str _ = False"

section \<open>Facts about validation\<close>

lemma both_Valid_iff:
  "both a b = Valid p \<longleftrightarrow> (\<exists>x y. a = Valid x \<and> b = Valid y \<and> p = (x, y))"
  by (cases a; cases b) auto

lemma map_validation_Valid_iff:
  "map_validation f a = Valid y \<longleftrightarrow> (\<exists>x. a = Valid x \<and> y = f x)"
  by (cases a) auto

lemma validate_str_Valid_iff: "validate_str v = Valid s \<longleftrightarrow> v = JStr s"
  by (cases v) auto

lemma validate_items_str_Valid_iff:
  "validate_items validate_str xs = Valid ss \<longleftrightarrow> xs = map JStr ss"
proof (induction xs arbitrary: ss)
  case Nil
  then show ?case by auto
next
  case (Cons x xs)
  show ?case
    by (cases ss) (auto simp: map_validation_Valid_iff both_Valid_iff validate_str_Valid_iff Cons.IH)
qed

lemma no_none_truthy: "no_none v = Inr xs \<Longrightarrow> \<forall>x \<in> set xs. truthy x"
  by (auto simp: no_none_def split: sum.splits)

lemma no_none_idem: "no_none v = Inr xs \<Longrightarrow> no_none (JArr xs) = Inr xs"
  by (auto simp: no_none_def split: sum.splits)

lemma validate_fields_Valid_iff:
  "validate_fields v = Valid ss \<longleftrightarrow> no_none v = Inr (map JStr ss)"
  by (auto simp: validate_fields_def validate_items_str_Valid_iff split: sum.splits)

lemma validate_fields_nonempty: "validate_fields v = Valid ss \<Longrightarrow> [] \<notin> set ss"
  using no_none_truthy [of v "map JStr ss"] by (auto simp: validate_fields_Valid_iff)

lemma validate_fields_again:
  "validate_fields v = Valid ss \<Longrightarrow> validate_fields (JArr (map JStr ss)) = Valid ss"
  by (auto simp: validate_fields_Valid_iff dest: no_none_idem)

lemma required_Valid_iff:
  "required kvs key f = Valid x \<longleftrightarrow> (\<exists>v. map_of kvs key = Some v \<and> f v = Valid x)"
  by (auto simp: required_def split: option.splits)

lemma validate_SelectItem_Valid:
  assumes "validate_SelectItem v = Valid item"
  shows "\<exists>kvs uf sf. v = JObj kvs \<and> map_of kvs ''used_fields'' = Some uf
           \<and> validate_fields uf = Valid (used_fields item)
           \<and> map_of kvs ''suggested_fields'' = Some sf
           \<and> validate_fields sf = Valid (suggested_fields item)
           \<and> map_of kvs ''table'' \<noteq> None \<and> map_of kvs ''target_type'' \<noteq> None
           \<and> map_of kvs ''target_name'' \<noteq> None"
proof (cases v)
  case (JObj kvs)
  with assms show ?thesis
    by (auto simp: map_validation_Valid_iff both_Valid_iff required_Valid_iff)
qed (use assms in auto)


section \<open>Facts about the handler loop\<close>

lemma llm_assess_eq: "llm_assess dumps chain ctx w = invoke chain (prompt_vars dumps ctx) w"
  by (simp add: llm_assess_def prompt_vars_def)

lemma length_batch_replies [simp]: "length (batch_replies dumps chain ctxs w) = length ctxs"
proof -
  have "length (replies chain inps s) = length inps" for inps and s :: 'a
    by (induction inps arbitrary: s) (auto split: prod.splits)
  then show ?thesis by (simp add: batch_replies_def)
qed

lemma batch_replies_Cons:
  "batch_replies dumps chain (ctx # ctxs) w =
     fst (llm_assess dumps chain ctx w) # batch_replies dumps chain ctxs (snd (llm_assess dumps chain ctx w))"
  by (simp add: batch_replies_def llm_assess_eq invoke_def split: prod.splits)

lemma calls_llm_assess:
  "calls (snd (llm_assess dumps chain ctx w)) = calls w @ [prompt_vars dumps ctx]"
  by (simp add: llm_assess_eq invoke_def split: prod.splits)

lemma assess_loop_objects:
  "list_all is_object (batch_replies dumps chain ctxs w) \<Longrightarrow>
   \<exists>w'. assess_loop dumps chain ctxs acc w =
           (Returned (JArr (acc @ map2 result_for ctxs (batch_replies dumps chain ctxs w))), w')
       \<and> calls w' = calls w @ map (prompt_vars dumps) ctxs"
proof (induction ctxs arbitrary: acc w)
  case Nil
  then show ?case by (simp add: batch_replies_def)
next
  case (Cons ctx ctxs)
  obtain r w1 where step: "llm_assess dumps chain ctx w = (r, w1)"
    by (cases "llm_assess dumps chain ctx w")
  from Cons.prems step have obj: "is_object r"
    and rest: "list_all is_object (batch_replies dumps chain ctxs w1)"
    by (simp_all add: batch_replies_Cons)
  from obj obtain kvs where r: "r = Returns (JObj kvs)"
    by (cases r rule: is_object.cases) auto
  from calls_llm_assess [of dumps chain ctx w] step
  have c1: "calls w1 = calls w @ [prompt_vars dumps ctx]" by simp
  from Cons.IH [OF rest, of "acc @ [result_for ctx r]"]
  obtain w' where loop: "assess_loop dumps chain ctxs (acc @ [result_for ctx r]) w1 =
        (Returned (JArr ((acc @ [result_for ctx r]) @
           map2 result_for ctxs (batch_replies dumps chain ctxs w1))), w')"
    and c2: "calls w' = calls w1 @ map (prompt_vars dumps) ctxs"
    by blast
  from step r loop have "assess_loop dumps chain (ctx # ctxs) acc w =
      (Returned (JArr (acc @ map2 result_for (ctx # ctxs) (batch_replies dumps chain (ctx # ctxs) w))), w')"
    by (simp add: batch_replies_Cons)
  moreover from c1 c2 have "calls w' = calls w @ map (prompt_vars dumps) (ctx # ctxs)"
    by simp
  ultimately show ?case by blast
qed

lemma assess_loop_first_failure:
  "k < length ctxs \<Longrightarrow>
   \<forall>i<k. is_object (batch_replies dumps chain ctxs w ! i) \<Longrightarrow>
   \<not> is_object (batch_replies dumps chain ctxs w ! k) \<Longrightarrow>
   \<exists>w'. assess_loop dumps chain ctxs acc w = (failure (batch_replies dumps chain ctxs w ! k), w')
       \<and> calls w' = calls w @ take (Suc k) (map (prompt_vars dumps) ctxs)"
proof (induction ctxs arbitrary: k acc w)
  case Nil
  then show ?case by simp
next
  case (Cons ctx ctxs)
  obtain r w1 where step: "llm_assess dumps chain ctx w = (r, w1)"
    by (cases "llm_assess dumps chain ctx w")
  from calls_llm_assess [of dumps chain ctx w] step
  have c1: "calls w1 = calls w @ [prompt_vars dumps ctx]" by simp
  show ?case
  proof (cases k)
    case 0
    with Cons.prems step have "\<not> is_object r" by (simp add: batch_replies_Cons)
    with step c1 0 show ?thesis
      by (cases r rule: is_object.cases) (auto simp: batch_replies_Cons)
  next
    case (Suc j)
    with Cons.prems step have obj: "is_object r"
      and j: "j < length ctxs"
      and before: "\<forall>i<j. is_object (batch_replies dumps chain ctxs w1 ! i)"
      and at: "\<not> is_object (batch_replies dumps chain ctxs w1 ! j)"
      by (auto simp: batch_replies_Cons)
    from obj obtain kvs where r: "r = Returns (JObj kvs)"
      by (cases r rule: is_object.cases) auto
    from Cons.IH [OF j before at, of "acc @ [result_for ctx r]"]
    obtain w' where loop: "assess_loop dumps chain ctxs (acc @ [result_for ctx r]) w1 =
          (failure (batch_replies dumps chain ctxs w1 ! j), w')"
      and c2: "calls w' = calls w1 @ take (Suc j) (map (prompt_vars dumps) ctxs)"
      by blast
    from step r loop Suc have "assess_loop dumps chain (ctx # ctxs) acc w =
        (failure (batch_replies dumps chain (ctx # ctxs) w ! k), w')"
      by (simp add: batch_replies_Cons)
    moreover from c1 c2 Suc
    have "calls w' = calls w @ take (Suc k) (map (prompt_vars dumps) (ctx # ctxs))"
      by simp
    ultimately show ?thesis by blast
  qed
qed


lemma assess_loop_Returned_objects:
  "assess_loop dumps chain ctxs acc w = (Returned v, w') \<Longrightarrow>
   list_all is_object (batch_replies dumps chain ctxs w)"
proof (induction ctxs arbitrary: acc w)
  case Nil
  then show ?case by (simp add: batch_replies_def)
next
  case (Cons ctx ctxs)
  obtain r w1 where step: "llm_assess dumps chain ctx w = (r, w1)"
    by (cases "llm_assess dumps chain ctx w")
  show ?case
  proof (cases "is_object r")
    case True
    then obtain kvs where r: "r = Returns (JObj kvs)"
      by (cases r rule: is_object.cases) auto
    with Cons.prems step
    have "assess_loop dumps chain ctxs (acc @ [result_for ctx r]) w1 = (Returned v, w')"
      by simp
    from Cons.IH [OF this] step True show ?thesis
      by (simp add: batch_replies_Cons)
  next
    case False
    with Cons.prems step show ?thesis
      by (cases r rule: is_object.cases) auto
  qed
qed

section \<open>The claims about the handler\<close>

text \<open>
  Claim C1. In a batch of valid items, let the model call for item \<open>k\<close> (counted from
  1, \<open>k \<le> N\<close>) raise an exception with message \<open>e\<close>, the calls before it having
  returned objects. Then the handler ends with the single \<^verbatim>\<open>HTTPException\<close> of status
  502 whose detail embeds \<open>e\<close>: no array is returned, the results of the items before
  \<open>k\<close> are dropped, and the calls made are those for the items 1 to \<open>k\<close> only, so
  the items after \<open>k\<close> are never processed.
\<close>

theorem batch_aborts_at_first_failed_call:
  assumes "1 \<le> k" and "k \<le> length ctxs"
    and "\<forall>i<k - 1. is_object (batch_replies dumps chain ctxs w ! i)"
    and "batch_replies dumps chain ctxs w ! (k - 1) = Raises e"
  shows "\<exists>w'. assess_note_context dumps chain ctxs w =
                 (HTTPException 502 (''LLM call failed: '' @ e), w')
             \<and> status_code (fst (assess_note_context dumps chain ctxs w)) = 502
             \<and> calls w' = calls w @ map (prompt_vars dumps) (take k ctxs)"
proof -
  from assms(1,2) have k: "k - 1 < length ctxs" and Sk: "Suc (k - 1) = k" by simp_all
  from assms(4) have "\<not> is_object (batch_replies dumps chain ctxs w ! (k - 1))" by simp
  from assess_loop_first_failure [OF k assms(3) this, of "[]"] assms(4) Sk
  show ?thesis by (auto simp: assess_note_context_def take_map)
qed

theorem batch_aborts_at_first_failed_call_witness:
  "\<exists>w'. assess_note_context usage_count
            (scripted [Returns (JObj [(''assessment'', JStr ''obsolete'')]), Raises ''timeout'',
                       Returns (JObj [])])
            [unit_named ''A'', unit_named ''B'', unit_named ''C''] fresh =
            (HTTPException 502 ''LLM call failed: timeout'', w')
        \<and> status_code (fst (assess_note_context usage_count
            (scripted [Returns (JObj [(''assessment'', JStr ''obsolete'')]), Raises ''timeout'',
                       Returns (JObj [])])
            [unit_named ''A'', unit_named ''B'', unit_named ''C''] fresh)) = 502
        \<and> calls w' = [prompt_vars usage_count (unit_named ''A''),
                       prompt_vars usage_count (unit_named ''B'')]"
  using batch_aborts_at_first_failed_call [of 2 "[unit_named ''A'', unit_named ''B'', unit_named ''C'']"
      usage_count
      "scripted [Returns (JObj [(''assessment'', JStr ''obsolete'')]), Raises ''timeout'',
                 Returns (JObj [])]"
      fresh "''timeout''"]
  by (simp add: batch_replies_def scripted_def fresh_def)

text \<open>
  Claim C10. When the reply for item \<open>k\<close> parses as JSON but is no object (an array, a
  string, a number, a boolean, null), the first \<^verbatim>\<open>llm_result.get\<close> raises
  \<^verbatim>\<open>AttributeError\<close> outside the \<^verbatim>\<open>try\<close> that guards the model call: the
  request ends with that exception, untranslated (status 500), and not with the 502
  response.
\<close>

theorem non_object_reply_is_not_translated:
  assumes "1 \<le> k" and "k \<le> length ctxs"
    and "\<forall>i<k - 1. is_object (batch_replies dumps chain ctxs w ! i)"
    and "batch_replies dumps chain ctxs w ! (k - 1) = Returns v"
    and "\<not> is_object (Returns v)"
  shows "\<exists>w'. assess_note_context dumps chain ctxs w = (Unhandled AttributeError, w')
             \<and> status_code (fst (assess_note_context dumps chain ctxs w)) = 500
             \<and> calls w' = calls w @ map (prompt_vars dumps) (take k ctxs)"
proof -
  from assms(1,2) have k: "k - 1 < length ctxs" and Sk: "Suc (k - 1) = k" by simp_all
  from assms(4,5) have "\<not> is_object (batch_replies dumps chain ctxs w ! (k - 1))" by simp
  from assess_loop_first_failure [OF k assms(3) this, of "[]"] assms(4) Sk
  show ?thesis by (auto simp: assess_note_context_def take_map)
qed

theorem non_object_reply_is_not_translated_witness:
  "\<exists>w'. assess_note_context usage_count
            (scripted [Returns (JObj []), Returns (JArr [JStr ''obsolete''])])
            [unit_named ''A'', unit_named ''B''] fresh = (Unhandled AttributeError, w')
        \<and> status_code (fst (assess_note_context usage_count
            (scripted [Returns (JObj []), Returns (JArr [JStr ''obsolete''])])
            [unit_named ''A'', unit_named ''B''] fresh)) = 500
        \<and> calls w' = [prompt_vars usage_count (unit_named ''A''),
                       prompt_vars usage_count (unit_named ''B'')]"
  using non_object_reply_is_not_translated [of 2 "[unit_named ''A'', unit_named ''B'']"
      usage_count "scripted [Returns (JObj []), Returns (JArr [JStr ''obsolete''])]"
      fresh "JArr [JStr ''obsolete'']"]
  by (simp add: batch_replies_def scripted_def fresh_def)

text \<open>
  Claim C2. In a batch of \<open>N\<close> valid items whose model calls all succeed with a JSON
  object, the handler returns an array of exactly \<open>N\<close> results; the result at each
  position carries the \<^verbatim>\<open>pgm_name\<close>, \<^verbatim>\<open>inc_name\<close>, \<^verbatim>\<open>type\<close> and
  \<^verbatim>\<open>name\<close> of the item at that position, so the order is the order of the input, and
  its \<^verbatim>\<open>code\<close> is the empty string.
\<close>

theorem all_calls_succeed_gives_one_result_per_item:
  assumes "list_all is_object (batch_replies dumps chain ctxs w)"
  shows "\<exists>results w'.
           assess_note_context dumps chain ctxs w = (Returned (JArr results), w')
         \<and> length results = length ctxs
         \<and> (\<forall>i<length ctxs.
               field (results ! i) ''pgm_name'' = Some (of_optional (pgm_name (ctxs ! i)))
             \<and> field (results ! i) ''inc_name'' = Some (of_optional (inc_name (ctxs ! i)))
             \<and> field (results ! i) ''type'' = Some (of_optional (type (ctxs ! i)))
             \<and> field (results ! i) ''name'' = Some (of_optional (name (ctxs ! i)))
             \<and> field (results ! i) ''code'' = Some (JStr ''''))"
proof -
  let ?rs = "batch_replies dumps chain ctxs w"
  let ?results = "map2 result_for ctxs ?rs"
  from assess_loop_objects [OF assms, of "[]"]
  obtain w' where run: "assess_note_context dumps chain ctxs w = (Returned (JArr ?results), w')"
    by (auto simp: assess_note_context_def)
  have "field (?results ! i) ''pgm_name'' = Some (of_optional (pgm_name (ctxs ! i)))
      \<and> field (?results ! i) ''inc_name'' = Some (of_optional (inc_name (ctxs ! i)))
      \<and> field (?results ! i) ''type'' = Some (of_optional (type (ctxs ! i)))
      \<and> field (?results ! i) ''name'' = Some (of_optional (name (ctxs ! i)))
      \<and> field (?results ! i) ''code'' = Some (JStr '''')" if i: "i < length ctxs" for i
  proof -
    from assms i have "is_object (?rs ! i)" by (simp add: list_all_length)
    then obtain kvs where "?rs ! i = Returns (JObj kvs)"
      by (cases "?rs ! i" rule: is_object.cases) auto
    with i show ?thesis by simp
  qed
  with run show ?thesis by simp
qed

theorem all_calls_succeed_gives_one_result_per_item_witness:
  "\<exists>results w'.
     assess_note_context usage_count
       (scripted [Returns (JObj [(''assessment'', JStr ''obsolete'')]), Returns (JObj [])])
       [unit_named ''A'', unit_named ''B''] fresh = (Returned (JArr results), w')
   \<and> length results = 2
   \<and> field (results ! 0) ''name'' = Some (JStr ''A'')
   \<and> field (results ! 1) ''name'' = Some (JStr ''B'')
   \<and> field (results ! 0) ''code'' = Some (JStr '''')
   \<and> field (results ! 1) ''code'' = Some (JStr '''')"
proof -
  have "list_all is_object (batch_replies usage_count
      (scripted [Returns (JObj [(''assessment'', JStr ''obsolete'')]), Returns (JObj [])])
      [unit_named ''A'', unit_named ''B''] fresh)"
    by (simp add: batch_replies_def scripted_def fresh_def)
  from all_calls_succeed_gives_one_result_per_item [OF this]
  obtain results w' where run: "assess_note_context usage_count
       (scripted [Returns (JObj [(''assessment'', JStr ''obsolete'')]), Returns (JObj [])])
       [unit_named ''A'', unit_named ''B''] fresh = (Returned (JArr results), w')"
    and len: "length results = length [unit_named ''A'', unit_named ''B'']"
    and each: "\<forall>i<length [unit_named ''A'', unit_named ''B''].
        field (results ! i) ''name'' = Some (of_optional (name ([unit_named ''A'', unit_named ''B''] ! i)))
      \<and> field (results ! i) ''code'' = Some (JStr '''')"
    by blast
  from each have "field (results ! 0) ''name'' = Some (JStr ''A'')"
    and "field (results ! 1) ''name'' = Some (JStr ''B'')"
    and "field (results ! 0) ''code'' = Some (JStr '''')"
    and "field (results ! 1) ''code'' = Some (JStr '''')"
    by (simp_all add: unit_named_def)
  with run len show ?thesis by simp
qed

text \<open>
  Claim C8. Whenever the handler returns its array, the result of an item whose model
  call returned the object \<open>kvs\<close> is the dict that echoes the item's
  \<^verbatim>\<open>pgm_name\<close>, \<^verbatim>\<open>inc_name\<close>, \<^verbatim>\<open>type\<close> and \<^verbatim>\<open>name\<close>, and whose
  \<^verbatim>\<open>assessment\<close> and \<^verbatim>\<open>llm_prompt\<close> are the values of those keys in \<open>kvs\<close>,
  the empty string for a key that \<open>kvs\<close> lacks.
\<close>

theorem result_echoes_item_and_model_output:
  assumes "assess_note_context dumps chain ctxs w = (Returned (JArr results), w')"
    and "i < length ctxs"
    and "batch_replies dumps chain ctxs w ! i = Returns (JObj kvs)"
  shows "results ! i =
           JObj [(''pgm_name'', of_optional (pgm_name (ctxs ! i))),
                 (''inc_name'', of_optional (inc_name (ctxs ! i))),
                 (''type'', of_optional (type (ctxs ! i))),
                 (''name'', of_optional (name (ctxs ! i))),
                 (''code'', JStr ''''),
                 (''assessment'', case map_of kvs ''assessment'' of None \<Rightarrow> JStr '''' | Some v \<Rightarrow> v),
                 (''llm_prompt'', case map_of kvs ''llm_prompt'' of None \<Rightarrow> JStr '''' | Some v \<Rightarrow> v)]"
proof -
  from assms(1) have "list_all is_object (batch_replies dumps chain ctxs w)"
    unfolding assess_note_context_def by (rule assess_loop_Returned_objects)
  from assess_loop_objects [OF this, of "[]"] assms(1)
  have "results = map2 result_for ctxs (batch_replies dumps chain ctxs w)"
    by (auto simp: assess_note_context_def)
  with assms(2,3) show ?thesis by simp
qed

theorem result_echoes_item_and_model_output_witness:
  "\<exists>results w'.
     assess_note_context usage_count
       (scripted [Returns (JObj [(''assessment'', JStr ''obsolete'')]), Returns (JObj [])])
       [unit_named ''A'', unit_named ''B''] fresh = (Returned (JArr results), w')
   \<and> results ! 0 =
       JObj [(''pgm_name'', JStr ''Z_CM''), (''inc_name'', JStr ''Z_CM_I01''),
             (''type'', JStr ''FORM''), (''name'', JStr ''A''), (''code'', JStr ''''),
             (''assessment'', JStr ''obsolete''), (''llm_prompt'', JStr '''')]"
proof -
  obtain results w' where run: "assess_note_context usage_count
       (scripted [Returns (JObj [(''assessment'', JStr ''obsolete'')]), Returns (JObj [])])
       [unit_named ''A'', unit_named ''B''] fresh = (Returned (JArr results), w')"
    by (simp add: assess_note_context_def llm_assess_def invoke_def scripted_def fresh_def)
  have "batch_replies usage_count
       (scripted [Returns (JObj [(''assessment'', JStr ''obsolete'')]), Returns (JObj [])])
       [unit_named ''A'', unit_named ''B''] fresh ! 0
       = Returns (JObj [(''assessment'', JStr ''obsolete'')])"
    by (simp add: batch_replies_def scripted_def fresh_def)
  from result_echoes_item_and_model_output [OF run _ this] run show ?thesis
    by (simp add: unit_named_def)
qed

text \<open>
  The array that the handler returns is not always the response: a reply object whose
  \<^verbatim>\<open>assessment\<close> is an infinite float is copied into the result, and the array then
  does not render.
\<close>

lemma infinite_assessment_is_returned_and_not_rendered:
  "fst (assess_note_context usage_count
          (scripted [Returns (JObj [(''assessment'', JNum Infinity)])])
          [unit_named ''A''] fresh) =
     Returned (JArr [JObj [(''pgm_name'', JStr ''Z_CM''), (''inc_name'', JStr ''Z_CM_I01''),
                           (''type'', JStr ''FORM''), (''name'', JStr ''A''),
                           (''code'', JStr ''''), (''assessment'', JNum Infinity),
                           (''llm_prompt'', JStr '''')]])
   \<and> status_code (fst (assess_note_context usage_count
          (scripted [Returns (JObj [(''assessment'', JNum Infinity)])])
          [unit_named ''A''] fresh)) = 500"
  by (simp add: assess_note_context_def llm_assess_def invoke_def scripted_def fresh_def
      unit_named_def)

section \<open>The claims about validation and the summarizer\<close>

text \<open>
  Claim C3. For every raw ObjectUsage that validates, the validated \<^verbatim>\<open>used_fields\<close>
  and \<^verbatim>\<open>suggested_fields\<close> hold no empty string (and, being lists of strings, no
  null), and validating them again gives the same lists. The filter itself keeps no null
  and no empty string and is idempotent: on its own output it returns that output. The
  request of the specification's example validates with \<^verbatim>\<open>used_fields\<close> equal to
  \<^verbatim>\<open>["KUNNR"]\<close>.
\<close>

theorem validated_fields_hold_no_empty_entry:
  "(validate_SelectItem v = Valid item \<longrightarrow>
       [] \<notin> set (used_fields item) \<and> [] \<notin> set (suggested_fields item)
     \<and> validate_fields (JArr (map JStr (used_fields item))) = Valid (used_fields item)
     \<and> validate_fields (JArr (map JStr (suggested_fields item))) = Valid (suggested_fields item))
   \<and> (no_none raw = Inr xs \<longrightarrow>
         JNull \<notin> set xs \<and> JStr [] \<notin> set xs \<and> no_none (JArr xs) = Inr xs)
   \<and> validate_body example_request =
       Valid [\<lparr>pgm_name = Some ''Z_CM'', inc_name = Some ''Z_CM_I01'', type = Some ''FORM'',
               name = Some ''CHECK_CREDIT'',
               cm_obj_usage =
                 [\<lparr>table = ''S066'', target_type = ''TABLE'', target_name = ''S066'',
                   used_fields = [''KUNNR''], suggested_fields = [''UKM_ITEM''],
                   suggested_statement = None\<rparr>]\<rparr>]"
proof (intro conjI impI)
  assume valid: "validate_SelectItem v = Valid item"
  from validate_SelectItem_Valid [OF valid]
  obtain uf sf where uf: "validate_fields uf = Valid (used_fields item)"
    and sf: "validate_fields sf = Valid (suggested_fields item)"
    by blast
  from uf show "[] \<notin> set (used_fields item)" by (rule validate_fields_nonempty)
  from sf show "[] \<notin> set (suggested_fields item)" by (rule validate_fields_nonempty)
  from uf show "validate_fields (JArr (map JStr (used_fields item))) = Valid (used_fields item)"
    by (rule validate_fields_again)
  from sf show "validate_fields (JArr (map JStr (suggested_fields item))) = Valid (suggested_fields item)"
    by (rule validate_fields_again)
next
  assume filtered: "no_none raw = Inr xs"
  from no_none_truthy [OF filtered] show "JNull \<notin> set xs" by auto
  from no_none_truthy [OF filtered] show "JStr [] \<notin> set xs" by auto
  from filtered show "no_none (JArr xs) = Inr xs" by (rule no_none_idem)
next
  show "validate_body example_request =
       Valid [\<lparr>pgm_name = Some ''Z_CM'', inc_name = Some ''Z_CM_I01'', type = Some ''FORM'',
               name = Some ''CHECK_CREDIT'',
               cm_obj_usage =
                 [\<lparr>table = ''S066'', target_type = ''TABLE'', target_name = ''S066'',
                   used_fields = [''KUNNR''], suggested_fields = [''UKM_ITEM''],
                   suggested_statement = None\<rparr>]\<rparr>]"
    by (simp add: validate_body_def example_request_def required_def with_default_def
        validate_fields_def no_none_def)
qed

theorem validated_fields_hold_no_empty_entry_witness:
  "validate_SelectItem
     (JObj [(''table'', JStr ''S066''), (''target_type'', JStr ''TABLE''),
            (''target_name'', JStr ''S066''),
            (''used_fields'', JArr [JStr ''KUNNR'', JStr '''', JNull]),
            (''suggested_fields'', JArr [JStr ''UKM_ITEM''])])
     = Valid \<lparr>table = ''S066'', target_type = ''TABLE'', target_name = ''S066'',
               used_fields = [''KUNNR''], suggested_fields = [''UKM_ITEM''],
               suggested_statement = None\<rparr>
   \<and> [] \<notin> set [''KUNNR''] \<and> [] \<notin> set [''UKM_ITEM'']
   \<and> validate_fields (JArr (map JStr [''KUNNR''])) = Valid [''KUNNR'']
   \<and> no_none (JArr [JStr ''KUNNR'', JStr '''', JNull]) = Inr [JStr ''KUNNR'']
   \<and> JNull \<notin> set [JStr ''KUNNR''] \<and> JStr [] \<notin> set [JStr ''KUNNR'']
   \<and> no_none (JArr [JStr ''KUNNR'']) = Inr [JStr ''KUNNR'']"
proof -
  have valid: "validate_SelectItem
     (JObj [(''table'', JStr ''S066''), (''target_type'', JStr ''TABLE''),
            (''target_name'', JStr ''S066''),
            (''used_fields'', JArr [JStr ''KUNNR'', JStr '''', JNull]),
            (''suggested_fields'', JArr [JStr ''UKM_ITEM''])])
     = Valid \<lparr>table = ''S066'', target_type = ''TABLE'', target_name = ''S066'',
               used_fields = [''KUNNR''], suggested_fields = [''UKM_ITEM''],
               suggested_statement = None\<rparr>"
    by (simp add: required_def with_default_def validate_fields_def no_none_def)
  have filtered: "no_none (JArr [JStr ''KUNNR'', JStr '''', JNull]) = Inr [JStr ''KUNNR'']"
    by (simp add: no_none_def)
  from validated_fields_hold_no_empty_entry
    [of "JObj [(''table'', JStr ''S066''), (''target_type'', JStr ''TABLE''),
            (''target_name'', JStr ''S066''),
            (''used_fields'', JArr [JStr ''KUNNR'', JStr '''', JNull]),
            (''suggested_fields'', JArr [JStr ''UKM_ITEM''])]"
        "\<lparr>table = ''S066'', target_type = ''TABLE'', target_name = ''S066'',
               used_fields = [''KUNNR''], suggested_fields = [''UKM_ITEM''],
               suggested_statement = None\<rparr>"
        "JArr [JStr ''KUNNR'', JStr '''', JNull]" "[JStr ''KUNNR'']"]
    valid filtered
  show ?thesis by simp
qed

text \<open>
  Claim C6. The summarizer is a function of its argument alone: equal contexts give equal
  mappings. The \<^verbatim>\<open>cm_obj_usage\<close> of its output is a sequence with one entry per
  usage of the input, the dump of that usage, so its length is the number of usages.
\<close>

theorem summarize_context_deterministic_one_entry_per_usage:
  "(ctx1 = ctx2 \<longrightarrow> summarize_context ctx1 = summarize_context ctx2)
   \<and> (\<exists>us. field (summarize_context ctx) ''cm_obj_usage'' = Some (JArr us)
          \<and> length us = length (cm_obj_usage ctx)
          \<and> us = map model_dump (cm_obj_usage ctx))"
  by (simp add: summarize_context_def)

theorem summarize_context_deterministic_one_entry_per_usage_witness:
  "unit_named ''A'' = unit_named ''A''
   \<and> summarize_context (unit_named ''A'') = summarize_context (unit_named ''A'')
   \<and> (\<exists>us. field (summarize_context
               \<lparr>pgm_name = None, inc_name = None, type = None, name = None,
                cm_obj_usage =
                  [\<lparr>table = ''S066'', target_type = ''TABLE'', target_name = ''S066'',
                    used_fields = [''KUNNR''], suggested_fields = [''UKM_ITEM''],
                    suggested_statement = None\<rparr>]\<rparr>) ''cm_obj_usage'' = Some (JArr us)
          \<and> length us = 1)"
  using summarize_context_deterministic_one_entry_per_usage
    [of "unit_named ''A''" "unit_named ''A''"
        "\<lparr>pgm_name = None, inc_name = None, type = None, name = None,
                cm_obj_usage =
                  [\<lparr>table = ''S066'', target_type = ''TABLE'', target_name = ''S066'',
                    used_fields = [''KUNNR''], suggested_fields = [''UKM_ITEM''],
                    suggested_statement = None\<rparr>]\<rparr>"]
  by simp

lemma with_default_optional_str:
  "absent_null_or_str (map_of kvs key) \<Longrightarrow>
   \<exists>x. with_default kvs key None validate_optional_str = Valid x"
  by (cases "map_of kvs key" rule: absent_null_or_str.cases) (auto simp: with_default_def)

lemma calls_single_item:
  "calls (snd (assess_note_context dumps chain [ctx] w)) = calls w @ [prompt_vars dumps ctx]"
proof -
  obtain r w1 where step: "llm_assess dumps chain ctx w = (r, w1)"
    by (cases "llm_assess dumps chain ctx w")
  from calls_llm_assess [of dumps chain ctx w] step
  have "calls w1 = calls w @ [prompt_vars dumps ctx]" by simp
  with step show ?thesis
    by (cases r rule: is_object.cases) (auto simp: assess_note_context_def)
qed

text \<open>
  Claim C7. A raw record without usages (the key \<^verbatim>\<open>cm_obj_usage\<close> absent, or the
  empty list) whose four metadata fields are absent, null or strings validates, to a
  context whose \<^verbatim>\<open>cm_obj_usage\<close> is the empty list. The summary of that context has
  the empty list under \<^verbatim>\<open>cm_obj_usage\<close>, and the request that holds this one record
  runs the handler on it and makes exactly one call to the model, with the variables
  rendered from that summary.
\<close>

theorem unit_without_usages_is_processed:
  assumes "map_of kvs ''cm_obj_usage'' = None \<or> map_of kvs ''cm_obj_usage'' = Some (JArr [])"
    and "\<forall>key \<in> {''pgm_name'', ''inc_name'', ''type'', ''name''}. absent_null_or_str (map_of kvs key)"
  shows "\<exists>ctx. validate_NoteContext (JObj kvs) = Valid ctx
             \<and> cm_obj_usage ctx = []
             \<and> field (summarize_context ctx) ''cm_obj_usage'' = Some (JArr [])
             \<and> post_assess dumps chain (JArr [JObj kvs]) w = assess_note_context dumps chain [ctx] w
             \<and> calls (snd (post_assess dumps chain (JArr [JObj kvs]) w)) =
                 calls w @ [prompt_vars dumps ctx]"
proof -
  from assms(2) obtain p i t n
    where p: "with_default kvs ''pgm_name'' None validate_optional_str = Valid p"
      and i: "with_default kvs ''inc_name'' None validate_optional_str = Valid i"
      and t: "with_default kvs ''type'' None validate_optional_str = Valid t"
      and n: "with_default kvs ''name'' None validate_optional_str = Valid n"
    using with_default_optional_str [of kvs] by (meson insertCI)
  from assms(1)
  have u: "with_default kvs ''cm_obj_usage'' [] (validate_list validate_SelectItem) = Valid []"
    by (auto simp: with_default_def)
  let ?ctx = "\<lparr>pgm_name = p, inc_name = i, type = t, name = n, cm_obj_usage = []\<rparr>"
  from p i t n u have valid: "validate_NoteContext (JObj kvs) = Valid ?ctx" by simp
  then have run: "post_assess dumps chain (JArr [JObj kvs]) w = assess_note_context dumps chain [?ctx] w"
    by (simp add: post_assess_def validate_body_def)
  have "field (summarize_context ?ctx) ''cm_obj_usage'' = Some (JArr [])"
    by (simp add: summarize_context_def)
  with valid run calls_single_item [of dumps chain ?ctx w] show ?thesis
    by (intro exI [of _ ?ctx]) simp
qed

theorem unit_without_usages_is_processed_witness:
  "\<exists>ctx. validate_NoteContext (JObj [(''pgm_name'', JStr ''Z_CM''), (''name'', JNull)]) = Valid ctx
       \<and> cm_obj_usage ctx = []
       \<and> field (summarize_context ctx) ''cm_obj_usage'' = Some (JArr [])
       \<and> post_assess usage_count (scripted [Returns (JObj [])])
            (JArr [JObj [(''pgm_name'', JStr ''Z_CM''), (''name'', JNull)]]) fresh =
          assess_note_context usage_count (scripted [Returns (JObj [])]) [ctx] fresh
       \<and> calls (snd (post_assess usage_count (scripted [Returns (JObj [])])
            (JArr [JObj [(''pgm_name'', JStr ''Z_CM''), (''name'', JNull)]]) fresh)) =
           calls fresh @ [prompt_vars usage_count ctx]"
  using unit_without_usages_is_processed
    [of "[(''pgm_name'', JStr ''Z_CM''), (''name'', JNull)]" usage_count
        "scripted [Returns (JObj [])]" fresh]
  by simp

text \<open>
  Claim C9. \<^verbatim>\<open>GET /health\<close> returns the object with \<^verbatim>\<open>ok\<close> true and
  \<^verbatim>\<open>model\<close> the configured model identifier, in every world, so also in the world that
  any earlier request has left; it makes no call to the model service.
\<close>

theorem health_reports_model_and_calls_nothing:
  "get_health env w =
     (Returned (JObj [(''ok'', JBool True), (''model'', JStr (OPENAI_MODEL env))]), w)
   \<and> status_code (fst (get_health env w)) = 200
   \<and> calls (snd (get_health env w)) = calls w
   \<and> fst (get_health env (snd (post_assess dumps chain body w))) =
       Returned (JObj [(''ok'', JBool True), (''model'', JStr (OPENAI_MODEL env))])
   \<and> calls (snd (get_health env (snd (post_assess dumps chain body w)))) =
       calls (snd (post_assess dumps chain body w))"
  by (simp add: get_health_def health_def)

section \<open>Requests that the field validator mishandles\<close>

lemma validate_items_member:
  "validate_items f xs = Valid ys \<Longrightarrow> x \<in> set xs \<Longrightarrow> \<exists>y. f x = Valid y"
  by (induction xs arbitrary: ys) (auto simp: map_validation_Valid_iff both_Valid_iff)

lemma validate_NoteContext_usages:
  assumes "validate_NoteContext (JObj kvs) = Valid ctx"
    and "map_of kvs ''cm_obj_usage'' = Some (JArr usages)"
  shows "validate_items validate_SelectItem usages = Valid (cm_obj_usage ctx)"
  using assms by (auto simp: map_validation_Valid_iff both_Valid_iff with_default_def)

text \<open>
  A request with a usage that lacks a required field is never handled: no call is made to
  the model, and the request ends with status 422 or, when an exception escapes the
  validation, 500.
\<close>

lemma missing_required_field_makes_no_call:
  assumes "JObj kvs \<in> set records"
    and "map_of kvs ''cm_obj_usage'' = Some (JArr usages)"
    and "JObj ukvs \<in> set usages"
    and "key \<in> {''table'', ''target_type'', ''target_name'', ''used_fields'', ''suggested_fields''}"
    and "map_of ukvs key = None"
  shows "\<exists>out. post_assess dumps chain (JArr records) w = (out, w) \<and> status_code out \<in> {422, 500}"
proof (cases "validate_body (JArr records)")
  case (Valid ctxs)
  then have "validate_items validate_NoteContext records = Valid ctxs"
    by (simp add: validate_body_def)
  from validate_items_member [OF this assms(1)]
  obtain ctx where "validate_NoteContext (JObj kvs) = Valid ctx" by blast
  from validate_NoteContext_usages [OF this assms(2)]
  have "validate_items validate_SelectItem usages = Valid (cm_obj_usage ctx)" .
  from validate_items_member [OF this assms(3)]
  obtain item where "validate_SelectItem (JObj ukvs) = Valid item" by blast
  with assms(4,5) have False
    by (auto simp: map_validation_Valid_iff both_Valid_iff required_Valid_iff)
  then show ?thesis ..
next
  case ValidationError
  then show ?thesis by (simp add: post_assess_def)
next
  case (Escapes e)
  then show ?thesis by (simp add: post_assess_def)
qed

text \<open>
  Claim C4. The claim asks for the 422 response whenever a usage lacks a required field.
  In \<open>request_without_table\<close> the usage lacks \<^verbatim>\<open>table\<close> and its
  \<^verbatim>\<open>used_fields\<close> is null: \<open>no_none\<close> iterates the null, the \<^verbatim>\<open>TypeError\<close>
  leaves the validation, and the request ends with status 500. No call is made to the
  model.
\<close>

theorem missing_table_with_null_fields_ends_in_500:
  "post_assess dumps chain request_without_table w = (Unhandled TypeError, w)
   \<and> status_code (fst (post_assess dumps chain request_without_table w)) = 500"
  by (simp add: post_assess_def validate_body_def request_without_table_def required_def
      with_default_def validate_fields_def no_none_def)

text \<open>
  Claim C5. The claim asks that a record with a field of the wrong type is never
  accepted. In \<open>request_with_str_fields\<close> the value of \<^verbatim>\<open>used_fields\<close> is a str
  where a sequence of strings is required: \<open>no_none\<close> iterates its characters, the
  record validates with one string per character, and the handler calls the model for it.
\<close>

theorem str_for_used_fields_is_accepted:
  "validate_body request_with_str_fields =
     Valid [\<lparr>pgm_name = None, inc_name = None, type = None, name = None,
             cm_obj_usage =
               [\<lparr>table = ''S066'', target_type = ''TABLE'', target_name = ''S066'',
                 used_fields = [''K'', ''U'', ''N'', ''N'', ''R''],
                 suggested_fields = [''UKM_ITEM''], suggested_statement = None\<rparr>]\<rparr>]
   \<and> length (calls (snd (post_assess dumps chain request_with_str_fields w))) =
       Suc (length (calls w))"
proof -
  have valid: "validate_body request_with_str_fields =
     Valid [\<lparr>pgm_name = None, inc_name = None, type = None, name = None,
             cm_obj_usage =
               [\<lparr>table = ''S066'', target_type = ''TABLE'', target_name = ''S066'',
                 used_fields = [''K'', ''U'', ''N'', ''N'', ''R''],
                 suggested_fields = [''UKM_ITEM''], suggested_statement = None\<rparr>]\<rparr>]"
    by (simp add: validate_body_def request_with_str_fields_def required_def
        with_default_def validate_fields_def no_none_def)
  then show ?thesis
    by (simp add: post_assess_def calls_single_item)
qed

end
